theory Spec2Isabelle
  imports Main "HOL-Library.Word" "HOL-Library.Signed_Division"
begin

unbundle bit_operations_syntax

section \<open>Data model of the MultiHarp camera adapter (MHCam.h, MHCam.cpp)\<close>

text \<open>
  The C++ types of the source are modelled as follows.
  \<^item> \<open>unsigned int\<close> is \<open>32 word\<close>, \<open>uint64_t\<close> is \<open>64 word\<close>, \<open>unsigned char\<close> is
    \<open>8 word\<close> and \<open>unsigned short\<close> is \<open>16 word\<close>: their arithmetic wraps around.
  \<^item> \<open>int\<close> and \<open>long\<close> (both 32 bits wide on the Windows target of the adapter) are HOL
    integers where the source keeps them in a small range: the geometry, which the
    property handlers bound, and \<open>current_line_\<close>, which a frame start sets to \<open>-1\<close> and a
    line start increments only until it has passed \<open>cameraCCDYSize_\<close>. The frame counter
    \<open>n_frame_tracker_\<close> is incremented at every frame start and never reset: it is a
    32-bit word, read in two's complement with \<open>sint\<close>, and its increment wraps around.
    The one place where the source narrows a 64-bit value to \<open>int\<close>, the cast
    \<open>(int)pn\<close> of \<open>GetPixnumInLine\<close>, is written out as a two's complement reading of the
    low 32 bits. Division and remainder of signed values truncate towards zero
    (\<open>sdiv\<close>, \<open>smod\<close>).
  \<^item> What is undefined behaviour in C++ and decides a claim is an error value of the
    model: an integer division by zero and an access outside the pixel buffer.
\<close>

type_synonym u8 = "8 word"
type_synonym u16 = "16 word"
type_synonym u32 = "32 word"
type_synonym u64 = "64 word"

subsection \<open>Interpret_TTTR (MHCam.cpp, lines 2364-2383)\<close>

record tttr =
  sync :: u32
  tcspc :: u32
  channel :: u32
  special :: bool

definition nsync_mask :: u32 where "nsync_mask = 0x00003ff"
definition tcspc_mask :: u32 where "tcspc_mask = 0x0007fff"
definition chan_mask :: u32 where "chan_mask = 0x000003f"
definition special_mask :: u32 where "special_mask = 0x0000001"
definition nsync_shift :: nat where "nsync_shift = 0"
definition tcspc_shift :: nat where "tcspc_shift = 10"
definition chan_shift :: nat where "chan_shift = 25"
definition special_shift :: nat where "special_shift = 31"

definition Interpret_TTTR :: "u32 \<Rightarrow> tttr" where
  "Interpret_TTTR record =
     \<lparr> sync = drop_bit nsync_shift record AND nsync_mask,
       tcspc = drop_bit tcspc_shift record AND tcspc_mask,
       channel = drop_bit chan_shift record AND chan_mask,
       special = (drop_bit special_shift record AND special_mask \<noteq> 0) \<rparr>"

subsection \<open>The camera object and its image buffer (MHCam.h, lines 290-417)\<close>

text \<open>
  \<open>ImgBuffer\<close> belongs to the Micro-Manager device library and is used here through
  \<open>Width()\<close>, \<open>Height()\<close>, \<open>Depth()\<close> and \<open>GetPixels()\<close> only. The model keeps
  the three dimensions and the bytes of the buffer. A 16-bit sample is read through an
  \<open>unsigned short*\<close> on a little-endian machine: sample \<open>i\<close> is made of the bytes
  \<open>2 * i\<close> (low) and \<open>2 * i + 1\<close> (high).
\<close>

record ImgBuffer =
  Width :: nat
  Height :: nat
  Depth :: nat
  pixels :: "u8 list"

text \<open>
  The members of \<open>MH_camera\<close> that the acquisition pipeline reads or writes, under their
  names in the source without the trailing underscore. \<open>PixelType\<close> is the stored value
  of the property \<open>MM::g_Keyword_PixelType\<close>, which the source reads with \<open>GetProperty\<close>.
\<close>

record MH_camera =
  binSize :: int
  n_scanPixels_X :: int
  n_scanPixels_Y :: int
  n_beams_X :: int
  n_beams_Y :: int
  cameraCCDXSize :: int
  cameraCCDYSize :: int
  pixel_dwelltime_ps :: u64
  MeasDesc_GlobalResolution :: u64
  last_line_start :: u64
  last_line_end :: u64
  current_line :: int
  n_frame_tracker :: u32
  overflow_counter :: u32
  frame_active :: bool
  live_rates :: "u32 list"
  PixelType :: string
  img :: ImgBuffer

datatype fault = DivisionByZero | OutOfBounds

definition g_PixelType_8bit :: string where "g_PixelType_8bit = ''8bit''"
definition g_PixelType_16bit :: string where "g_PixelType_16bit = ''16bit''"
definition MAX_N_CHANNELS :: u32 where "MAX_N_CHANNELS = 8"

subsection \<open>Reading the pixel type property (MHCam.cpp, lines 1689-1712)\<close>

text \<open>
  \<open>DEVICE_OK\<close> is a constant of the Micro-Manager device library; \<open>ERR_UNKNOWN_MODE\<close>
  is defined in MHCam.h.
\<close>

definition DEVICE_OK :: int where "DEVICE_OK = 0"
definition ERR_UNKNOWN_MODE :: int where "ERR_UNKNOWN_MODE = 102"

text \<open>
  The \<open>MM::BeforeGet\<close> branch of \<open>OnPixelType\<close>: its return code and the value it sets
  the property to, from the bytes per pixel of the image buffer
  (\<open>GetImageBytesPerPixel\<close>, lines 958-961).
\<close>

definition OnPixelType_BeforeGet :: "MH_camera \<Rightarrow> int \<times> string" where
  "OnPixelType_BeforeGet s =
     (let bytesPerPixel = Depth (img s)
      in (DEVICE_OK,
          if bytesPerPixel = 1 then g_PixelType_8bit
          else if bytesPerPixel = 2 then g_PixelType_16bit
          else g_PixelType_8bit))"

text \<open>
  \<open>GetProperty\<close> belongs to the Micro-Manager device library. The pixel type property is
  created with the action \<open>OnPixelType\<close> (lines 280-281), and a read of a property with
  an action runs the action with \<open>MM::BeforeGet\<close> and delivers the value that the action
  has set. The model of \<open>GetProperty(MM::g_Keyword_PixelType, buf)\<close> returns the return
  code, the string delivered in \<open>buf\<close>, and the camera with the stored value updated.
\<close>

definition GetProperty_PixelType :: "MH_camera \<Rightarrow> (int \<times> string) \<times> MH_camera" where
  "GetProperty_PixelType s =
     (let ret = fst (OnPixelType_BeforeGet s); buf = snd (OnPixelType_BeforeGet s)
      in ((ret, buf), s\<lparr> PixelType := buf \<rparr>))"

subsection \<open>GetPixnumInLine (MHCam.cpp, lines 2498-2516)\<close>

definition GetPixnumInLine :: "MH_camera \<Rightarrow> u64 \<Rightarrow> u64 \<Rightarrow> fault + int" where
  "GetPixnumInLine s timestamp linestart_timestamp =
     (let time_into_line_ps = timestamp - linestart_timestamp in
      if pixel_dwelltime_ps s = 0 then Inl DivisionByZero
      else
        let pn = time_into_line_ps div pixel_dwelltime_ps s in
        if n_beams_X s = 0 then Inl DivisionByZero
        else
          let pixnum = sint (ucast pn :: u32) sdiv n_beams_X s in
          Inr (if pixnum \<ge> cameraCCDXSize s then cameraCCDXSize s - 1 else pixnum))"

subsection \<open>Saturating accumulation into the pixel buffer (MHCam.cpp, lines 2472-2488)\<close>

definition read16 :: "u8 list \<Rightarrow> nat \<Rightarrow> u16" where
  "read16 b i = push_bit 8 (ucast (b ! (2 * i + 1))) OR ucast (b ! (2 * i))"

definition write16 :: "u8 list \<Rightarrow> nat \<Rightarrow> u16 \<Rightarrow> u8 list" where
  "write16 b i v = b[2 * i := ucast v, 2 * i + 1 := ucast (drop_bit 8 v)]"

text \<open>
  The block that follows \<open>if (channel >= 0)\<close>, a test that an \<open>unsigned int\<close> always
  passes. \<open>target_px\<close> is the \<open>int\<close> index the source applies to the sample pointer.
\<close>

definition accumulate :: "string \<Rightarrow> u8 list \<Rightarrow> int \<Rightarrow> fault + u8 list" where
  "accumulate pixelType rawBytes target_px =
     (if pixelType = g_PixelType_8bit then
        (let maxValue = (255 :: u8) in
         if target_px < 0 \<or> int (length rawBytes) \<le> target_px then Inl OutOfBounds
         else if rawBytes ! nat target_px \<noteq> maxValue
           then Inr (rawBytes[nat target_px := rawBytes ! nat target_px + 1])
           else Inr rawBytes)
      else if pixelType = g_PixelType_16bit then
        (let maxValue = (65535 :: u16) in
         if target_px < 0 \<or> int (length rawBytes) \<le> 2 * target_px + 1 then Inl OutOfBounds
         else if read16 rawBytes (nat target_px) \<noteq> maxValue
           then Inr (write16 rawBytes (nat target_px) (read16 rawBytes (nat target_px) + 1))
           else Inr rawBytes)
      else Inr rawBytes)"

subsection \<open>TranslateRecord (MHCam.cpp, lines 2385-2496)\<close>

definition overflowtime :: "MH_camera \<Rightarrow> u64" where
  "overflowtime s = ucast (overflow_counter s) * 1024"

definition timestamp_ps :: "MH_camera \<Rightarrow> u32 \<Rightarrow> u64" where
  "timestamp_ps s val =
     (ucast (sync (Interpret_TTTR val)) + overflowtime s) * MeasDesc_GlobalResolution s"

text \<open>The \<open>switch\<close> on the channel of a special record (lines 2400-2428).\<close>

definition special_record :: "u32 \<Rightarrow> u32 \<Rightarrow> u64 \<Rightarrow> MH_camera \<Rightarrow> fault + MH_camera" where
  "special_record chan nsync ts s =
     (if chan = 1 then
        (if (word_of_int (cameraCCDXSize s) :: u64) = 0 then Inl DivisionByZero
         else Inr (s\<lparr> last_line_end := ts,
                      pixel_dwelltime_ps :=
                        (ts - last_line_start s) div word_of_int (cameraCCDXSize s) \<rparr>))
      else if chan = 2 then
        (let s1 = s\<lparr> last_line_start := ts \<rparr>;
             s2 = (if frame_active s1 then s1\<lparr> current_line := current_line s1 + 1 \<rparr> else s1)
         in Inr (if current_line s2 > cameraCCDYSize s2 then s2\<lparr> frame_active := False \<rparr>
                 else s2))
      else if chan = 3 \<or> chan = 4 then
        Inr (s\<lparr> current_line := - 1, frame_active := True,
                  n_frame_tracker := n_frame_tracker s + 1 \<rparr>)
      else if chan = 63 then
        Inr (s\<lparr> overflow_counter := overflow_counter s + nsync \<rparr>)
      else Inr s)"

text \<open>
  The shifts of a channel (lines 2443-2448), for a number of beams in Y that is not zero.
  \<open>5 - channel\<close> is an unsigned subtraction whose result is assigned to an \<open>int\<close>.
\<close>

definition beam_shift :: "MH_camera \<Rightarrow> u32 \<Rightarrow> int \<times> int" where
  "beam_shift s chan =
     (let tmpchan = sint (5 - chan);
          x_shift = (tmpchan sdiv n_beams_Y s) * n_scanPixels_X s;
          y_shift = (tmpchan smod n_beams_Y s) * n_scanPixels_Y s
      in (x_shift, y_shift))"

text \<open>
  The branch of an ordinary record (lines 2436-2495). It reads the pixel type with
  \<open>GetProperty\<close> (line 2459) and does not look at the return code.
\<close>

definition photon_record :: "u32 \<Rightarrow> u64 \<Rightarrow> MH_camera \<Rightarrow> fault + MH_camera" where
  "photon_record chan ts s =
     (if last_line_end s < last_line_start s \<and> chan \<noteq> 6 then
        (if current_line s \<ge> 0 then
           (if n_beams_Y s = 0 then Inl DivisionByZero
            else
              let x_shift = fst (beam_shift s chan);
                  y_shift = snd (beam_shift s chan)
              in case GetPixnumInLine s ts (last_line_start s) of
                   Inl e \<Rightarrow> Inl e
                 | Inr pixnum \<Rightarrow>
                     (let x_px = pixnum + x_shift;
                          y_px = current_line s + y_shift;
                          pixelType = snd (fst (GetProperty_PixelType s));
                          s1 = snd (GetProperty_PixelType s);
                          target_px = x_px + y_px * cameraCCDXSize s1
                      in case accumulate pixelType (pixels (img s1)) target_px of
                           Inl e \<Rightarrow> Inl e
                         | Inr px \<Rightarrow> Inr (s1\<lparr> img := (img s1)\<lparr> pixels := px \<rparr> \<rparr>)))
         else Inr s)
      else Inr s)"

definition TranslateRecord :: "u32 \<Rightarrow> MH_camera \<Rightarrow> fault + MH_camera" where
  "TranslateRecord val s =
     (let r = Interpret_TTTR val;
          ts = timestamp_ps s val
      in if special r then special_record (channel r) (sync r) ts s
         else photon_record (channel r) ts s)"

subsection \<open>start_acq (MHCam.cpp, lines 2928-3146)\<close>

text \<open>
  \<open>ResetPixels\<close> belongs to \<open>ImgBuffer\<close> of the Micro-Manager device library: it sets
  every byte of the buffer to zero. \<open>n_frame_repeats_\<close> is set to 1 by the constructor
  (line 174) and never assigned.
\<close>

definition ResetPixels :: "ImgBuffer \<Rightarrow> ImgBuffer" where
  "ResetPixels b = b\<lparr> pixels := replicate (length (pixels b)) 0 \<rparr>"

definition n_frame_repeats :: int where "n_frame_repeats = 1"

text \<open>The assignments under the comment \<open>Reset trackers\<close> (lines 2936-2944).\<close>

definition reset_trackers :: "MH_camera \<Rightarrow> MH_camera" where
  "reset_trackers s =
     s\<lparr> overflow_counter := 0, current_line := - 1, frame_active := False,
        last_line_start := 0, last_line_end := 0,
        live_rates := replicate (unat MAX_N_CHANNELS) 0 \<rparr>"

text \<open>
  What \<open>start_acq\<close> does before it starts the measurement (lines 2930-2944): the image
  is cleared when the frame counter is a multiple of \<open>n_frame_repeats_\<close>, then the
  trackers are reset.
\<close>

definition start_acq_prologue :: "MH_camera \<Rightarrow> MH_camera" where
  "start_acq_prologue s =
     reset_trackers
       (if sint (n_frame_tracker s) smod n_frame_repeats = 0
        then s\<lparr> img := ResetPixels (img s) \<rparr> else s)"

text \<open>The body of the loop over the records of one batch (lines 3057-3062).\<close>

definition dispatch_record :: "u32 \<Rightarrow> MH_camera \<Rightarrow> fault + MH_camera" where
  "dispatch_record record s =
     (let chan = drop_bit chan_shift record AND chan_mask in
      case TranslateRecord record s of
        Inl e \<Rightarrow> Inl e
      | Inr s' \<Rightarrow>
          Inr (if chan < MAX_N_CHANNELS
               then s'\<lparr> live_rates := (live_rates s')[unat chan := live_rates s' ! unat chan + 1] \<rparr>
               else s'))"

text \<open>The loop \<open>for (int i = 0; i < nRecords; i++)\<close> over a batch (lines 3056-3063).\<close>

fun dispatch_batch :: "u32 list \<Rightarrow> MH_camera \<Rightarrow> fault + MH_camera" where
  "dispatch_batch [] s = Inr s"
| "dispatch_batch (record # rest) s =
     (case dispatch_record record s of
        Inl e \<Rightarrow> Inl e
      | Inr s' \<Rightarrow> dispatch_batch rest s')"

subsection \<open>ResizeImageBuffer (MHCam.cpp, lines 2310-2336)\<close>



text \<open>
  The \<open>MM::AfterSet\<close> branch of \<open>OnPixelType\<close> (lines 1656-1687), once the camera is not
  capturing: the depth it passes to \<open>img_.Resize\<close>, the new \<open>bitDepth_\<close> and its return
  code.
\<close>

definition OnPixelType_AfterSet :: "string \<Rightarrow> int \<times> int \<times> int" where
  "OnPixelType_AfterSet pixelType =
     (if pixelType = g_PixelType_8bit then (1, 8, DEVICE_OK)
      else if pixelType = g_PixelType_16bit then (2, 16, DEVICE_OK)
      else (1, 8, ERR_UNKNOWN_MODE))"

subsection \<open>Two states of the camera (MHCam.cpp, lines 121-180, 228-849, 1656-1687)\<close>


definition MH_camera_init :: MH_camera where
  "MH_camera_init =
     \<lparr> binSize = 1, n_scanPixels_X = 120, n_scanPixels_Y = 80, n_beams_X = 2, n_beams_Y = 3,
       cameraCCDXSize = 240, cameraCCDYSize = 240,
       pixel_dwelltime_ps = 100000000, MeasDesc_GlobalResolution = 12618,
       last_line_start = 0, last_line_end = 100000000000000000,
       current_line = - 99, n_frame_tracker = 0, overflow_counter = 0,
       frame_active = False, live_rates = replicate 8 0,
       PixelType = ''16bit'',
       img = \<lparr> Width = 240, Height = 240, Depth = 2, pixels = replicate 115200 0 \<rparr> \<rparr>"

section \<open>Notions used to state the properties\<close>

text \<open>
  The sample that a pixel type reads at an index of the byte buffer, the ceiling of that
  pixel type, and the condition that a sample index lies inside the buffer.
\<close>

definition sample_at :: "string \<Rightarrow> u8 list \<Rightarrow> nat \<Rightarrow> nat" where
  "sample_at pixelType rawBytes i =
     (if pixelType = g_PixelType_8bit then unat (rawBytes ! i) else unat (read16 rawBytes i))"

definition ceiling_of :: "string \<Rightarrow> nat" where
  "ceiling_of pixelType = (if pixelType = g_PixelType_8bit then 255 else 65535)"

definition sample_in_buffer :: "string \<Rightarrow> u8 list \<Rightarrow> int \<Rightarrow> bool" where
  "sample_in_buffer pixelType rawBytes i =
     (0 \<le> i \<and> (if pixelType = g_PixelType_8bit then i < int (length rawBytes)
                else 2 * i + 1 < int (length rawBytes)))"

text \<open>\<open>n\<close> records in a row that land on the same sample.\<close>

fun accumulate_n :: "nat \<Rightarrow> string \<Rightarrow> u8 list \<Rightarrow> int \<Rightarrow> fault + u8 list" where
  "accumulate_n 0 pixelType rawBytes target_px = Inr rawBytes"
| "accumulate_n (Suc n) pixelType rawBytes target_px =
     (case accumulate pixelType rawBytes target_px of
        Inl e \<Rightarrow> Inl e
      | Inr rawBytes' \<Rightarrow> accumulate_n n pixelType rawBytes' target_px)"


definition line_start :: "u32 \<Rightarrow> bool" where
  "line_start v \<longleftrightarrow> special (Interpret_TTTR v) \<and> channel (Interpret_TTTR v) = 2"




text \<open>
  The state that the camera as constructed reaches from the reset of the trackers through
  a frame start, a line start at sync 1 and two overflow markers that carry 1023 each.
\<close>

definition long_line_state :: MH_camera where
  "long_line_state =
     (reset_trackers MH_camera_init)
       \<lparr> current_line := 0, frame_active := True, n_frame_tracker := 1,
         last_line_start := 12618, overflow_counter := 2046,
         live_rates := [0, 0, 1, 1, 0, 0, 0, 0] \<rparr>"

text \<open>
  The state that the camera as constructed reaches from the reset of the trackers through
  one frame start and 242 line starts at sync 1, two more than its image has rows.
\<close>

definition late_state :: MH_camera where
  "late_state =
     (reset_trackers MH_camera_init)
       \<lparr> current_line := 241, frame_active := False, n_frame_tracker := 1,
         last_line_start := 12618, live_rates := [0, 0, 242, 1, 0, 0, 0, 0] \<rparr>"

section \<open>Record decoding\<close>

lemma unat_and_mask_mod: "unat (w AND mask n :: u32) = unat w mod 2 ^ n"
proof -
  have "w AND mask n = take_bit n w" by (simp only: take_bit_eq_mask)
  then have "unat (w AND mask n) = take_bit n (unat w)" by (simp only: unsigned_take_bit_eq)
  then show ?thesis by (simp only: take_bit_eq_mod)
qed

lemma unat_drop_bit_div: "unat (drop_bit n (w :: u32)) = unat w div 2 ^ n"
proof -
  have "unat (drop_bit n w) = drop_bit n (unat w)" by (rule unat_drop_bit_eq)
  then show ?thesis by (simp only: drop_bit_eq_div)
qed

lemma mask_1023: "(1023 :: u32) = mask 10"
  by (simp add: mask_eq_exp_minus_1)

lemma mask_32767: "(32767 :: u32) = mask 15"
  by (simp add: mask_eq_exp_minus_1)

lemma mask_63: "(63 :: u32) = mask 6"
  by (simp add: mask_eq_exp_minus_1)

lemma sync_field: "unat (sync (Interpret_TTTR r)) = unat r mod 2 ^ 10"
  unfolding Interpret_TTTR_def nsync_shift_def nsync_mask_def
  by (simp add: mask_1023 unat_and_mask_mod)

lemma tcspc_field: "unat (tcspc (Interpret_TTTR r)) = unat r div 2 ^ 10 mod 2 ^ 15"
  unfolding Interpret_TTTR_def tcspc_shift_def tcspc_mask_def
  by (simp add: mask_32767 unat_and_mask_mod unat_drop_bit_div)

lemma channel_field: "unat (channel (Interpret_TTTR r)) = unat r div 2 ^ 25 mod 2 ^ 6"
  unfolding Interpret_TTTR_def chan_shift_def chan_mask_def
  by (simp add: mask_63 unat_and_mask_mod unat_drop_bit_div)

lemma special_field: "special (Interpret_TTTR r) = bit r 31"
  unfolding Interpret_TTTR_def special_shift_def special_mask_def
  by (simp add: and_one_eq bit_iff_odd_drop_bit mod_2_eq_odd)

lemmas decode_defs =
  Interpret_TTTR_def nsync_shift_def nsync_mask_def tcspc_shift_def tcspc_mask_def
  chan_shift_def chan_mask_def special_shift_def special_mask_def

text \<open>
  C2, as the source has it. Every 32-bit record decodes to the sync count in bits 0 to 9,
  the fine time in bits 10 to 24, the channel in bits 25 to 30 and the special flag in
  bit 31. The record \<open>0x82000005\<close> has bits 31, 25, 2 and 0 set, so it decodes to
  special, channel 1, fine time 0 and sync 5.
\<close>

theorem Interpret_TTTR_layout:
  "unat (sync (Interpret_TTTR r)) = unat r mod 2 ^ 10
   \<and> unat (tcspc (Interpret_TTTR r)) = unat r div 2 ^ 10 mod 2 ^ 15
   \<and> unat (channel (Interpret_TTTR r)) = unat r div 2 ^ 25 mod 2 ^ 6
   \<and> special (Interpret_TTTR r) = bit r 31
   \<and> Interpret_TTTR 0x82000005 = \<lparr> sync = 5, tcspc = 0, channel = 1, special = True \<rparr>"
proof -
  have "Interpret_TTTR 0x82000005 = \<lparr> sync = 5, tcspc = 0, channel = 1, special = True \<rparr>"
    by (simp add: decode_defs)
  then show ?thesis
    by (simp only: sync_field tcspc_field channel_field special_field simp_thms)
qed

text \<open>
  C2 as the claim words its example: the record \<open>0x82000005\<close> would decode to channel 16.
  It does not; bit 25 is the lowest bit of the channel field.
\<close>

theorem Interpret_TTTR_example_not_channel_16:
  "Interpret_TTTR 0x82000005 \<noteq> \<lparr> sync = 5, tcspc = 0, channel = 16, special = True \<rparr>"
  by (simp add: decode_defs)

section \<open>Time base\<close>








section \<open>Saturating accumulation\<close>

lemma read16_write16:
  "2 * i + 1 < length b \<Longrightarrow> read16 (write16 b i v) i = v"
  unfolding read16_def write16_def
  apply simp
  apply (rule bit_word_eqI)
  apply (auto simp: bit_simps)
  done

lemma write16_read16:
  "2 * i + 1 < length b \<Longrightarrow> write16 b i (read16 b i) = b"
  unfolding read16_def write16_def
  apply (rule nth_equalityI)
   apply simp
  apply (auto simp: nth_list_update)
   apply (rule bit_word_eqI)
   apply (auto simp: bit_simps dest: bit_imp_le_length)
   apply (rule bit_word_eqI)
   apply (auto simp: bit_simps dest: bit_imp_le_length)
  done

lemma read16_write16_other:
  "j \<noteq> i \<Longrightarrow> read16 (write16 b i v) j = read16 b j"
  unfolding read16_def write16_def
  by (auto simp: nth_list_update) 

lemma length_write16: "length (write16 b i v) = length b"
  by (simp add: write16_def)

lemma write16_write16: "write16 (write16 b i v) i w = write16 b i w"
  by (simp add: write16_def list_update_swap)

lemma unat_inc8: "v \<noteq> (255::u8) \<Longrightarrow> unat (v + 1) = unat v + 1"
proof -
  assume "v \<noteq> 255"
  then have "unat v \<noteq> unat (255 :: u8)" by (simp only: word_unat_eq_iff not_False_eq_True)
  then have "unat v \<noteq> 255" by simp
  moreover have "unat v < 256" using unsigned_less [of v] by simp
  ultimately have "unat v + 1 < 256" by simp
  then show ?thesis by (simp add: unat_word_ariths)
qed

lemma unat_inc16: "v \<noteq> (65535::u16) \<Longrightarrow> unat (v + 1) = unat v + 1"
proof -
  assume "v \<noteq> 65535"
  then have "unat v \<noteq> unat (65535 :: u16)" by (simp only: word_unat_eq_iff not_False_eq_True)
  then have "unat v \<noteq> 65535" by simp
  moreover have "unat v < 65536" using unsigned_less [of v] by simp
  ultimately have "unat v + 1 < 65536" by simp
  then show ?thesis by (simp add: unat_word_ariths)
qed



lemma pixel_types_differ: "g_PixelType_16bit \<noteq> g_PixelType_8bit"
  by (simp add: g_PixelType_16bit_def g_PixelType_8bit_def)

lemma accumulate_8bit:
  assumes "0 \<le> i" and "i < int (length b)"
  shows "accumulate g_PixelType_8bit b i =
           Inr (b[nat i := of_nat (min 255 (unat (b ! nat i) + 1))])"
proof (cases "b ! nat i = 255")
  case True
  have "(of_nat (min 255 (unat (b ! nat i) + 1)) :: u8) = b ! nat i"
    by (simp add: True)
  then have "b[nat i := of_nat (min 255 (unat (b ! nat i) + 1))] = b"
    by (simp only: list_update_id)
  moreover have "accumulate g_PixelType_8bit b i = Inr b"
    using True assms by (simp add: accumulate_def)
  ultimately show ?thesis by (simp only:)
next
  case False
  then have u: "unat (b ! nat i + 1) = unat (b ! nat i) + 1" by (rule unat_inc8)
  have "unat (b ! nat i + 1) < 256" using unsigned_less [of "b ! nat i + 1"] by simp
  with u have "min 255 (unat (b ! nat i) + 1) = unat (b ! nat i + 1)" by simp
  then have "(of_nat (min 255 (unat (b ! nat i) + 1)) :: u8) = b ! nat i + 1"
    by (simp only: of_nat_unat ucast_id)
  moreover have "accumulate g_PixelType_8bit b i = Inr (b[nat i := b ! nat i + 1])"
    using False assms by (simp add: accumulate_def)
  ultimately show ?thesis by (simp only:)
qed

lemma accumulate_16bit:
  assumes "0 \<le> i" and "2 * i + 1 < int (length b)"
  shows "accumulate g_PixelType_16bit b i =
           Inr (write16 b (nat i) (of_nat (min 65535 (unat (read16 b (nat i)) + 1))))"
proof (cases "read16 b (nat i) = 65535")
  case True
  have "2 * nat i + 1 < length b" using assms by linarith
  then have "write16 b (nat i) (read16 b (nat i)) = b" by (rule write16_read16)
  moreover have "(of_nat (min 65535 (unat (read16 b (nat i)) + 1)) :: u16) = read16 b (nat i)"
    by (simp add: True)
  ultimately have "write16 b (nat i) (of_nat (min 65535 (unat (read16 b (nat i)) + 1))) = b"
    by (simp only:)
  moreover have "accumulate g_PixelType_16bit b i = Inr b"
    using True assms by (simp add: accumulate_def pixel_types_differ)
  ultimately show ?thesis by (simp only:)
next
  case False
  then have u: "unat (read16 b (nat i) + 1) = unat (read16 b (nat i)) + 1" by (rule unat_inc16)
  have "unat (read16 b (nat i) + 1) < 65536"
    using unsigned_less [of "read16 b (nat i) + 1"] by simp
  with u have "min 65535 (unat (read16 b (nat i)) + 1) = unat (read16 b (nat i) + 1)" by simp
  then have "(of_nat (min 65535 (unat (read16 b (nat i)) + 1)) :: u16) = read16 b (nat i) + 1"
    by (simp only: of_nat_unat ucast_id)
  moreover have "accumulate g_PixelType_16bit b i =
      Inr (write16 b (nat i) (read16 b (nat i) + 1))"
    using False assms by (simp add: accumulate_def pixel_types_differ)
  ultimately show ?thesis by (simp only:)
qed

lemma unat_of_nat_u8: "n \<le> 255 \<Longrightarrow> unat (of_nat n :: u8) = n"
  by (simp add: unat_of_nat take_bit_nat_eq_self)

lemma unat_of_nat_u16: "n \<le> 65535 \<Longrightarrow> unat (of_nat n :: u16) = n"
  by (simp add: unat_of_nat take_bit_nat_eq_self)

lemma accumulate_n_8bit:
  assumes "0 \<le> i" and "i < int (length b)"
  shows "accumulate_n n g_PixelType_8bit b i =
           Inr (b[nat i := of_nat (min 255 (unat (b ! nat i) + n))])"
  using assms
proof (induction n arbitrary: b)
  case 0
  have "unat (b ! nat i) < 256" using unsigned_less [of "b ! nat i"] by simp
  then have "min 255 (unat (b ! nat i)) = unat (b ! nat i)" by simp
  then show ?case by (simp add: list_update_same_conv)
next
  case (Suc n)
  let ?v = "of_nat (min 255 (unat (b ! nat i) + 1)) :: u8"
  let ?b = "b[nat i := ?v]"
  have len: "i < int (length ?b)" using Suc.prems by simp
  have v: "unat ?v = min 255 (unat (b ! nat i) + 1)" by (rule unat_of_nat_u8) simp
  have nth: "?b ! nat i = ?v" using Suc.prems by simp
  have "accumulate_n (Suc n) g_PixelType_8bit b i = accumulate_n n g_PixelType_8bit ?b i"
    using Suc.prems by (simp add: accumulate_8bit)
  also have "\<dots> = Inr (?b[nat i := of_nat (min 255 (unat (?b ! nat i) + n))])"
    using Suc.prems(1) len by (rule Suc.IH)
  also have "min 255 (unat (?b ! nat i) + n) = min 255 (unat (b ! nat i) + Suc n)"
    by (simp only: nth v)
  finally show ?case by simp
qed

lemma accumulate_n_16bit:
  assumes "0 \<le> i" and "2 * i + 1 < int (length b)"
  shows "accumulate_n n g_PixelType_16bit b i =
           Inr (write16 b (nat i) (of_nat (min 65535 (unat (read16 b (nat i)) + n))))"
  using assms
proof (induction n arbitrary: b)
  case 0
  have "unat (read16 b (nat i)) < 65536" using unsigned_less [of "read16 b (nat i)"] by simp
  then have "min 65535 (unat (read16 b (nat i))) = unat (read16 b (nat i))" by simp
  moreover have "2 * nat i + 1 < length b" using 0 by linarith
  ultimately show ?case by (simp add: write16_read16)
next
  case (Suc n)
  let ?v = "of_nat (min 65535 (unat (read16 b (nat i)) + 1)) :: u16"
  let ?b = "write16 b (nat i) ?v"
  have len: "2 * i + 1 < int (length ?b)" using Suc.prems by (simp add: length_write16)
  have v: "unat ?v = min 65535 (unat (read16 b (nat i)) + 1)" by (rule unat_of_nat_u16) simp
  have "2 * nat i + 1 < length b" using Suc.prems by linarith
  then have rd: "read16 ?b (nat i) = ?v" by (rule read16_write16)
  have "accumulate_n (Suc n) g_PixelType_16bit b i = accumulate_n n g_PixelType_16bit ?b i"
    using Suc.prems by (simp add: accumulate_16bit)
  also have "\<dots> = Inr (write16 ?b (nat i) (of_nat (min 65535 (unat (read16 ?b (nat i)) + n))))"
    using Suc.prems(1) len by (rule Suc.IH)
  also have "min 65535 (unat (read16 ?b (nat i)) + n) = min 65535 (unat (read16 b (nat i)) + Suc n)"
    by (simp only: rd v)
  finally show ?case by (simp add: write16_write16)
qed


lemma accumulate_n_samples:
  assumes ty: "pixelType = g_PixelType_8bit \<or> pixelType = g_PixelType_16bit"
    and inb: "sample_in_buffer pixelType b i"
  shows "\<exists>b'. accumulate_n n pixelType b i = Inr b' \<and> length b' = length b
           \<and> sample_at pixelType b' (nat i)
               = min (ceiling_of pixelType) (sample_at pixelType b (nat i) + n)
           \<and> (\<forall>j. j \<noteq> nat i \<longrightarrow> sample_at pixelType b' j = sample_at pixelType b j)"
  using ty
proof
  assume t: "pixelType = g_PixelType_8bit"
  from inb t have i: "0 \<le> i" "i < int (length b)" by (simp_all add: sample_in_buffer_def)
  let ?v = "of_nat (min 255 (unat (b ! nat i) + n)) :: u8"
  have "accumulate_n n pixelType b i = Inr (b[nat i := ?v])"
    unfolding t using i by (rule accumulate_n_8bit)
  moreover have "unat ?v = min 255 (unat (b ! nat i) + n)" by (rule unat_of_nat_u8) simp
  moreover have "nat i < length b" using i by linarith
  ultimately show ?thesis
    by (simp add: t sample_at_def ceiling_of_def)
next
  assume t: "pixelType = g_PixelType_16bit"
  from inb t have i: "0 \<le> i" "2 * i + 1 < int (length b)"
    by (simp_all add: sample_in_buffer_def pixel_types_differ)
  let ?v = "of_nat (min 65535 (unat (read16 b (nat i)) + n)) :: u16"
  have "accumulate_n n pixelType b i = Inr (write16 b (nat i) ?v)"
    unfolding t using i by (rule accumulate_n_16bit)
  moreover have "unat ?v = min 65535 (unat (read16 b (nat i)) + n)"
    by (rule unat_of_nat_u16) simp
  moreover have "2 * nat i + 1 < length b" using i by linarith
  then have "read16 (write16 b (nat i) ?v) (nat i) = ?v" by (rule read16_write16)
  ultimately show ?thesis
    by (simp add: t sample_at_def ceiling_of_def pixel_types_differ length_write16
        read16_write16_other)
qed

lemma accumulate_n_one: "accumulate_n (Suc 0) pixelType b i = accumulate pixelType b i"
  by (simp split: sum.split)

lemma sample_at_le_ceiling: "sample_at pixelType b j \<le> ceiling_of pixelType"
proof (cases "pixelType = g_PixelType_8bit")
  case True
  have "unat (b ! j) < 256" using unsigned_less [of "b ! j"] by simp
  with True show ?thesis by (simp add: sample_at_def ceiling_of_def)
next
  case False
  have "unat (read16 b j) < 65536" using unsigned_less [of "read16 b j"] by simp
  with False show ?thesis by (simp add: sample_at_def ceiling_of_def)
qed

text \<open>
  C7. For a pixel type of 8 or 16 bits and a sample index inside the buffer, one
  accumulation returns a buffer (never a fault) of the same length in which the sample is
  unchanged if it was at the ceiling (255, or 65535) and one larger otherwise, and every
  other sample is as before; \<open>n\<close> accumulations on the same index leave the sample at
  the minimum of the ceiling and the old value plus \<open>n\<close>, so it never wraps around.
\<close>

theorem accumulate_saturates:
  assumes ty: "pixelType = g_PixelType_8bit \<or> pixelType = g_PixelType_16bit"
    and inb: "sample_in_buffer pixelType b i"
  shows "(\<exists>b'. accumulate pixelType b i = Inr b' \<and> length b' = length b
           \<and> sample_at pixelType b' (nat i)
               = (if sample_at pixelType b (nat i) = ceiling_of pixelType
                  then sample_at pixelType b (nat i) else sample_at pixelType b (nat i) + 1)
           \<and> (\<forall>j. j \<noteq> nat i \<longrightarrow> sample_at pixelType b' j = sample_at pixelType b j))
       \<and> (\<exists>b'. accumulate_n n pixelType b i = Inr b' \<and> length b' = length b
           \<and> sample_at pixelType b' (nat i)
               = min (ceiling_of pixelType) (sample_at pixelType b (nat i) + n)
           \<and> (\<forall>j. j \<noteq> nat i \<longrightarrow> sample_at pixelType b' j = sample_at pixelType b j))"
proof
  have le: "sample_at pixelType b (nat i) \<le> ceiling_of pixelType"
    by (rule sample_at_le_ceiling)
  have m: "min (ceiling_of pixelType) (sample_at pixelType b (nat i) + Suc 0)
      = (if sample_at pixelType b (nat i) = ceiling_of pixelType
         then sample_at pixelType b (nat i) else sample_at pixelType b (nat i) + 1)"
    using le by auto
  from accumulate_n_samples [OF ty inb, of "Suc 0"]
  show "\<exists>b'. accumulate pixelType b i = Inr b' \<and> length b' = length b
           \<and> sample_at pixelType b' (nat i)
               = (if sample_at pixelType b (nat i) = ceiling_of pixelType
                  then sample_at pixelType b (nat i) else sample_at pixelType b (nat i) + 1)
           \<and> (\<forall>j. j \<noteq> nat i \<longrightarrow> sample_at pixelType b' j = sample_at pixelType b j)"
    by (simp only: accumulate_n_one m)
next
  show "\<exists>b'. accumulate_n n pixelType b i = Inr b' \<and> length b' = length b
           \<and> sample_at pixelType b' (nat i)
               = min (ceiling_of pixelType) (sample_at pixelType b (nat i) + n)
           \<and> (\<forall>j. j \<noteq> nat i \<longrightarrow> sample_at pixelType b' j = sample_at pixelType b j)"
    using ty inb by (rule accumulate_n_samples)
qed

theorem accumulate_saturates_witness:
  "sample_in_buffer g_PixelType_16bit [254, 255, 7, 7] 0
   \<and> sample_at g_PixelType_16bit [254, 255, 7, 7] 0 = 65534
   \<and> accumulate g_PixelType_16bit [254, 255, 7, 7] 0 = Inr [255, 255, 7, 7]
   \<and> accumulate_n 5 g_PixelType_16bit [254, 255, 7, 7] 0 = Inr [255, 255, 7, 7]
   \<and> (\<exists>b'. accumulate_n 5 g_PixelType_16bit [254, 255, 7, 7] 0 = Inr b'
        \<and> sample_at g_PixelType_16bit b' (nat 0) = 65535)"
proof -
  have ty: "g_PixelType_16bit = g_PixelType_8bit \<or> g_PixelType_16bit = g_PixelType_16bit"
    by simp
  have inb: "sample_in_buffer g_PixelType_16bit [254, 255, 7, 7] 0"
    by (simp add: sample_in_buffer_def pixel_types_differ)
  have s: "sample_at g_PixelType_16bit [254, 255, 7, 7] 0 = 65534"
    by (simp add: sample_at_def pixel_types_differ read16_def)
  have a: "accumulate g_PixelType_16bit [254, 255, 7, 7] 0 = Inr [255, 255, 7, 7]"
    by (simp add: accumulate_def pixel_types_differ read16_def write16_def)
  have a': "accumulate g_PixelType_16bit [255, 255, 7, 7] 0 = Inr [255, 255, 7, 7]"
    by (simp add: accumulate_def pixel_types_differ read16_def write16_def)
  have "accumulate_n (Suc (Suc (Suc (Suc (Suc 0))))) g_PixelType_16bit [254, 255, 7, 7] 0
      = Inr [255, 255, 7, 7]"
    by (simp add: a a')
  moreover have "(5 :: nat) = Suc (Suc (Suc (Suc (Suc 0))))" by simp
  ultimately have n: "accumulate_n 5 g_PixelType_16bit [254, 255, 7, 7] 0 = Inr [255, 255, 7, 7]"
    by (simp only:)
  have m: "min (ceiling_of g_PixelType_16bit)
      (sample_at g_PixelType_16bit [254, 255, 7, 7] (nat 0) + 5) = 65535"
    by (simp add: s ceiling_of_def pixel_types_differ)
  from accumulate_saturates [OF ty inb, of 5]
  have "\<exists>b'. accumulate_n 5 g_PixelType_16bit [254, 255, 7, 7] 0 = Inr b'
        \<and> sample_at g_PixelType_16bit b' (nat 0) = 65535"
    unfolding m by blast
  with inb s a n show ?thesis by (simp only: simp_thms)
qed

section \<open>Multi-beam shifts\<close>

lemma u32_of_unat: "unat (c :: u32) = n \<Longrightarrow> c = of_nat n"
proof -
  assume "unat c = n"
  then have "(of_nat n :: u32) = of_nat (unat c)" by (simp only:)
  also have "\<dots> = c" by (simp only: of_nat_unat ucast_id)
  finally show ?thesis by (rule sym)
qed

lemma channels_upto_5: "{c :: u32. c \<le> 5} = {0, 1, 2, 3, 4, 5}"
proof
  show "{c :: u32. c \<le> 5} \<subseteq> {0, 1, 2, 3, 4, 5}"
  proof
    fix c :: u32
    assume "c \<in> {c. c \<le> 5}"
    then have "unat c \<le> 5" by (simp add: word_le_nat_alt)
    then have "unat c = 0 \<or> unat c = 1 \<or> unat c = 2 \<or> unat c = 3 \<or> unat c = 4 \<or> unat c = 5"
      by linarith
    then have "c = of_nat 0 \<or> c = of_nat 1 \<or> c = of_nat 2 \<or> c = of_nat 3 \<or> c = of_nat 4 \<or> c = of_nat 5"
      by (blast dest: u32_of_unat)
    then show "c \<in> {0, 1, 2, 3, 4, 5}" by simp
  qed
next
  show "{0, 1, 2, 3, 4, 5} \<subseteq> {c :: u32. c \<le> 5}" by simp
qed

lemma beam_shift_table:
  assumes "n_beams_Y s = 3"
  shows "beam_shift s 0 = (n_scanPixels_X s, 2 * n_scanPixels_Y s)"
    and "beam_shift s 1 = (n_scanPixels_X s, n_scanPixels_Y s)"
    and "beam_shift s 2 = (n_scanPixels_X s, 0)"
    and "beam_shift s 3 = (0, 2 * n_scanPixels_Y s)"
    and "beam_shift s 4 = (0, n_scanPixels_Y s)"
    and "beam_shift s 5 = (0, 0)"
  using assms
  by (simp_all add: beam_shift_def signed_divide_int_def signed_modulo_int_def)


text \<open>
  C8. With two beams in X and three in Y (and scan sizes that are positive), the shifts
  that \<open>TranslateRecord\<close> computes from \<open>5 - channel\<close> are pairwise different on the
  channels 0 to 5, and they are exactly the origins \<open>(bx * n_scanPixels_X, by *
  n_scanPixels_Y)\<close> of the six cells \<open>bx < 2\<close>, \<open>by < 3\<close> of the beam grid: six
  channels, six different cells.
\<close>

theorem beam_shift_bijective:
  assumes "n_beams_X s = 2" and "n_beams_Y s = 3"
    and "0 < n_scanPixels_X s" and "0 < n_scanPixels_Y s"
  shows "inj_on (beam_shift s) {c. c \<le> 5}
     \<and> beam_shift s ` {c. c \<le> 5}
         = (\<lambda>(bx, by). (bx * n_scanPixels_X s, by * n_scanPixels_Y s)) ` ({0, 1} \<times> {0, 1, 2})
     \<and> card (beam_shift s ` {c. c \<le> 5}) = 6"
proof -
  note t = beam_shift_table [OF assms(2)]
  have inj: "inj_on (beam_shift s) {c. c \<le> 5}"
    unfolding channels_upto_5 using assms(3,4) by (simp add: t)
  have img: "beam_shift s ` {c. c \<le> 5}
      = (\<lambda>(bx, by). (bx * n_scanPixels_X s, by * n_scanPixels_Y s)) ` ({0, 1} \<times> {0, 1, 2})"
    unfolding channels_upto_5 by (auto simp: t)
  have "card {c :: u32. c \<le> 5} = 6"
    unfolding channels_upto_5 by simp
  with inj have "card (beam_shift s ` {c. c \<le> 5}) = 6"
    by (simp add: card_image)
  with inj img show ?thesis by blast
qed

theorem beam_shift_bijective_witness:
  "n_beams_X MH_camera_init = 2 \<and> n_beams_Y MH_camera_init = 3
   \<and> 0 < n_scanPixels_X MH_camera_init \<and> 0 < n_scanPixels_Y MH_camera_init
   \<and> inj_on (beam_shift MH_camera_init) {c. c \<le> 5}
   \<and> beam_shift MH_camera_init ` {c. c \<le> 5}
       = {(0, 0), (0, 80), (0, 160), (120, 0), (120, 80), (120, 160)}"
proof -
  have h: "n_beams_X MH_camera_init = 2" "n_beams_Y MH_camera_init = 3"
    "0 < n_scanPixels_X MH_camera_init" "0 < n_scanPixels_Y MH_camera_init"
    by (simp_all add: MH_camera_init_def)
  have x: "n_scanPixels_X MH_camera_init = 120" and y: "n_scanPixels_Y MH_camera_init = 80"
    by (simp_all add: MH_camera_init_def)
  have "(\<lambda>(bx, by). (bx * (120::int), by * (80::int))) ` ({0, 1} \<times> {0, 1, 2})
      = {(0, 0), (0, 80), (0, 160), (120, 0), (120, 80), (120, 160)}"
    by auto
  with beam_shift_bijective [OF h] h show ?thesis
    by (simp only: x y simp_thms)
qed

section \<open>Resizing the image buffer\<close>



lemma GetProperty_PixelType_state:
  "snd (GetProperty_PixelType s) =
     s\<lparr> PixelType := (if Depth (img s) = 2 then g_PixelType_16bit else g_PixelType_8bit) \<rparr>"
  by (simp add: GetProperty_PixelType_def OnPixelType_BeforeGet_def Let_def)

lemma GetProperty_PixelType_fields:
  "img (snd (GetProperty_PixelType s)) = img s"
  "live_rates (snd (GetProperty_PixelType s)) = live_rates s"
  "current_line (snd (GetProperty_PixelType s)) = current_line s"
  "frame_active (snd (GetProperty_PixelType s)) = frame_active s"
  "cameraCCDXSize (snd (GetProperty_PixelType s)) = cameraCCDXSize s"
  "cameraCCDYSize (snd (GetProperty_PixelType s)) = cameraCCDYSize s"
  "binSize (snd (GetProperty_PixelType s)) = binSize s"
  "n_frame_tracker (snd (GetProperty_PixelType s)) = n_frame_tracker s"
  by (simp_all add: GetProperty_PixelType_state)

lemma GetProperty_PixelType_16bit:
  assumes "Depth (img s) = 2" and "PixelType s = g_PixelType_16bit"
  shows "GetProperty_PixelType s = ((DEVICE_OK, g_PixelType_16bit), s)"
proof -
  have "s\<lparr> PixelType := g_PixelType_16bit \<rparr> = s"
    using assms(2) by (cases s) simp
  with assms(1) show ?thesis
    by (simp add: GetProperty_PixelType_def OnPixelType_BeforeGet_def Let_def)
qed

text \<open>Setting the pixel type to \<open>16bit\<close> gives a buffer of 2 bytes per pixel.\<close>

lemma OnPixelType_AfterSet_16bit: "OnPixelType_AfterSet g_PixelType_16bit = (2, 16, DEVICE_OK)"
  by (simp add: OnPixelType_AfterSet_def pixel_types_differ)





section \<open>Rate table\<close>

lemma special_record_live_rates:
  "special_record chan nsync ts s = Inr s' \<Longrightarrow> live_rates s' = live_rates s"
  by (auto simp: special_record_def Let_def split: if_splits)

lemma special_record_img:
  "special_record chan nsync ts s = Inr s' \<Longrightarrow> img s' = img s \<and> PixelType s' = PixelType s"
  by (auto simp: special_record_def Let_def split: if_splits)

lemma photon_record_live_rates:
  "photon_record chan ts s = Inr s' \<Longrightarrow> live_rates s' = live_rates s"
  by (auto simp: photon_record_def GetProperty_PixelType_fields Let_def
      split: if_splits sum.splits)

lemma TranslateRecord_live_rates:
  "TranslateRecord val s = Inr s' \<Longrightarrow> live_rates s' = live_rates s"
  by (auto simp: TranslateRecord_def Let_def split: if_splits
      dest: special_record_live_rates photon_record_live_rates)

lemma TranslateRecord_special_img:
  "special (Interpret_TTTR val) \<Longrightarrow> TranslateRecord val s = Inr s' \<Longrightarrow>
     img s' = img s \<and> PixelType s' = PixelType s"
  by (auto simp: TranslateRecord_def Let_def dest: special_record_img)

lemma dispatch_chan: "drop_bit chan_shift record AND chan_mask = channel (Interpret_TTTR record)"
  by (simp add: Interpret_TTTR_def)

lemma dispatch_record_live_rates:
  assumes "dispatch_record record s = Inr s'"
  shows "live_rates s' =
     (if channel (Interpret_TTTR record) < MAX_N_CHANNELS
      then (live_rates s)[unat (channel (Interpret_TTTR record)) :=
             live_rates s ! unat (channel (Interpret_TTTR record)) + 1]
      else live_rates s)"
proof (cases "TranslateRecord record s")
  case (Inl e)
  with assms show ?thesis by (simp add: dispatch_record_def)
next
  case (Inr t)
  then have "live_rates t = live_rates s" by (rule TranslateRecord_live_rates)
  with assms Inr show ?thesis
    by (auto simp: dispatch_record_def dispatch_chan Let_def split: if_splits)
qed


lemma replicate_8: "replicate (unat MAX_N_CHANNELS) (0 :: u32) = [0, 0, 0, 0, 0, 0, 0, 0]"
proof -
  have "unat MAX_N_CHANNELS = Suc (Suc (Suc (Suc (Suc (Suc (Suc (Suc 0)))))))"
    by (simp add: MAX_N_CHANNELS_def)
  then show ?thesis by (simp only: replicate.simps)
qed

lemma reset_fields:
  "overflow_counter (reset_trackers s) = 0"
  "current_line (reset_trackers s) = - 1"
  "frame_active (reset_trackers s) = False"
  "last_line_start (reset_trackers s) = 0"
  "last_line_end (reset_trackers s) = 0"
  "live_rates (reset_trackers s) = [0, 0, 0, 0, 0, 0, 0, 0]"
  "MeasDesc_GlobalResolution (reset_trackers s) = MeasDesc_GlobalResolution s"
  "pixel_dwelltime_ps (reset_trackers s) = pixel_dwelltime_ps s"
  "cameraCCDXSize (reset_trackers s) = cameraCCDXSize s"
  "cameraCCDYSize (reset_trackers s) = cameraCCDYSize s"
  "n_beams_X (reset_trackers s) = n_beams_X s"
  "n_beams_Y (reset_trackers s) = n_beams_Y s"
  "n_scanPixels_X (reset_trackers s) = n_scanPixels_X s"
  "n_scanPixels_Y (reset_trackers s) = n_scanPixels_Y s"
  "n_frame_tracker (reset_trackers s) = n_frame_tracker s"
  "PixelType (reset_trackers s) = PixelType s"
  "img (reset_trackers s) = img s"
  by (simp_all add: reset_trackers_def replicate_8)

lemma init_fields:
  "binSize MH_camera_init = 1"
  "n_scanPixels_X MH_camera_init = 120"
  "n_scanPixels_Y MH_camera_init = 80"
  "n_beams_X MH_camera_init = 2"
  "n_beams_Y MH_camera_init = 3"
  "cameraCCDXSize MH_camera_init = 240"
  "cameraCCDYSize MH_camera_init = 240"
  "pixel_dwelltime_ps MH_camera_init = 100000000"
  "MeasDesc_GlobalResolution MH_camera_init = 12618"
  "n_frame_tracker MH_camera_init = 0"
  "PixelType MH_camera_init = ''16bit''"
  "pixels (img MH_camera_init) = replicate 115200 0"
  "Depth (img MH_camera_init) = 2"
  by (simp_all add: MH_camera_init_def)

lemmas pipeline_defs =
  dispatch_record_def TranslateRecord_def special_record_def photon_record_def
  GetPixnumInLine_def beam_shift_def accumulate_def timestamp_ps_def overflowtime_def
  GetProperty_PixelType_16bit
  MAX_N_CHANNELS_def g_PixelType_8bit_def g_PixelType_16bit_def
  signed_divide_int_def signed_modulo_int_def Let_def

text \<open>
  \<open>start_acq\<close> clears the image before it resets the trackers: \<open>n_frame_repeats_\<close> is 1,
  so the test on the frame counter always holds. On the 16-bit camera with a cleared image
  the state after the reset of the trackers is the state in which \<open>start_acq\<close> starts the
  measurement.
\<close>

lemma start_acq_prologue_clears:
  "start_acq_prologue s = reset_trackers (s\<lparr> img := ResetPixels (img s) \<rparr>)"
  by (simp add: start_acq_prologue_def n_frame_repeats_def signed_modulo_int_def)

lemma start_acq_prologue_init:
  "start_acq_prologue MH_camera_init = reset_trackers MH_camera_init"
  by (simp add: start_acq_prologue_clears MH_camera_init_def ResetPixels_def)

text \<open>
  C9 as the claim words it: a special record would leave the rate table unchanged, and a
  photon of a channel beyond the channel count would change nothing. The line-start marker
  \<open>0x84000001\<close> (special, channel 2), dispatched in the state after the reset of the
  trackers, increments the entry of channel 2. The photon \<open>0x10000001\<close> of channel 8,
  dispatched 264 pixel times into the first line of a frame, leaves the rate table as it
  is and increments sample 12 of the image.
\<close>

theorem special_record_counted_in_rates:
  "special (Interpret_TTTR 0x84000001)
   \<and> live_rates (reset_trackers MH_camera_init) = [0, 0, 0, 0, 0, 0, 0, 0]
   \<and> dispatch_record 0x84000001 (reset_trackers MH_camera_init) =
       Inr ((reset_trackers MH_camera_init)
              \<lparr> last_line_start := 12618, live_rates := [0, 0, 1, 0, 0, 0, 0, 0] \<rparr>)
   \<and> special (Interpret_TTTR 0x10000001) = False
   \<and> channel (Interpret_TTTR 0x10000001) = 8
   \<and> dispatch_record 0x10000001 long_line_state =
       Inr (long_line_state \<lparr> img := (img long_line_state)
              \<lparr> pixels := (replicate 115200 0)[24 := 1, 25 := 0] \<rparr> \<rparr>)"
proof -
  have d: "Interpret_TTTR 0x84000001 = \<lparr> sync = 1, tcspc = 0, channel = 2, special = True \<rparr>"
    by (simp add: decode_defs)
  have c: "drop_bit chan_shift (0x84000001 :: u32) AND chan_mask = 2"
    by (simp add: chan_shift_def chan_mask_def)
  have t: "timestamp_ps (reset_trackers MH_camera_init) 0x84000001 = 12618"
    by (simp add: timestamp_ps_def overflowtime_def d reset_fields init_fields)
  have "TranslateRecord 0x84000001 (reset_trackers MH_camera_init) =
      Inr ((reset_trackers MH_camera_init) \<lparr> last_line_start := 12618 \<rparr>)"
    by (simp add: TranslateRecord_def special_record_def d t reset_fields init_fields)
  then have "dispatch_record 0x84000001 (reset_trackers MH_camera_init) =
       Inr ((reset_trackers MH_camera_init)
              \<lparr> last_line_start := 12618, live_rates := [0, 0, 1, 0, 0, 0, 0, 0] \<rparr>)"
    by (simp add: dispatch_record_def c MAX_N_CHANNELS_def reset_fields)
  moreover have "Interpret_TTTR 0x10000001 = \<lparr> sync = 1, tcspc = 0, channel = 8, special = False \<rparr>"
    by (simp add: decode_defs)
  moreover have "dispatch_record 0x10000001 long_line_state =
       Inr (long_line_state \<lparr> img := (img long_line_state)
              \<lparr> pixels := (replicate 115200 0)[24 := 1, 25 := 0] \<rparr> \<rparr>)"
    by (simp add: pipeline_defs decode_defs reset_fields init_fields long_line_state_def
        read16_def write16_def)
  ultimately show ?thesis by (simp add: d reset_fields)
qed

text \<open>
  C9, as the source has it. For every record that the loop dispatches and whose
  translation returns, special or not: if its channel field is below
  \<open>MAX_N_CHANNELS\<close>, the entry of that channel in the rate table is incremented by one
  (a 32-bit unsigned addition) and every other entry is unchanged; otherwise the rate table
  is unchanged. A special record leaves the image buffer and the pixel type as they were.
\<close>

theorem dispatch_record_rates:
  assumes "dispatch_record record s = Inr s'"
    and "length (live_rates s) = unat MAX_N_CHANNELS"
  shows "(channel (Interpret_TTTR record) < MAX_N_CHANNELS \<longrightarrow>
            live_rates s' ! unat (channel (Interpret_TTTR record))
              = live_rates s ! unat (channel (Interpret_TTTR record)) + 1
          \<and> (\<forall>k. k \<noteq> unat (channel (Interpret_TTTR record)) \<longrightarrow>
                 live_rates s' ! k = live_rates s ! k))
       \<and> (\<not> channel (Interpret_TTTR record) < MAX_N_CHANNELS \<longrightarrow> live_rates s' = live_rates s)
       \<and> length (live_rates s') = length (live_rates s)
       \<and> (special (Interpret_TTTR record) \<longrightarrow> img s' = img s \<and> PixelType s' = PixelType s)"
proof -
  note r = dispatch_record_live_rates [OF assms(1)]
  have a: "channel (Interpret_TTTR record) < MAX_N_CHANNELS \<Longrightarrow>
      unat (channel (Interpret_TTTR record)) < length (live_rates s)"
    by (simp add: assms(2) word_less_nat_alt)
  have i: "special (Interpret_TTTR record) \<Longrightarrow> img s' = img s \<and> PixelType s' = PixelType s"
  proof (cases "TranslateRecord record s")
    case (Inl e)
    with assms(1) show ?thesis by (simp add: dispatch_record_def)
  next
    case (Inr t)
    assume "special (Interpret_TTTR record)"
    then have "img t = img s \<and> PixelType t = PixelType s"
      using Inr by (rule TranslateRecord_special_img)
    with assms(1) Inr show ?thesis
      by (auto simp: dispatch_record_def Let_def split: if_splits)
  qed
  show ?thesis using r a i by (simp add: nth_list_update)
qed

theorem dispatch_record_rates_witness:
  "dispatch_record 0x06000005 (reset_trackers MH_camera_init) =
       Inr ((reset_trackers MH_camera_init) \<lparr> live_rates := [0, 0, 0, 1, 0, 0, 0, 0] \<rparr>)
   \<and> length (live_rates (reset_trackers MH_camera_init)) = unat MAX_N_CHANNELS
   \<and> channel (Interpret_TTTR 0x06000005) < MAX_N_CHANNELS
   \<and> live_rates ((reset_trackers MH_camera_init) \<lparr> live_rates := [0, 0, 0, 1, 0, 0, 0, 0] \<rparr>)
        ! unat (channel (Interpret_TTTR 0x06000005))
      = live_rates (reset_trackers MH_camera_init) ! unat (channel (Interpret_TTTR 0x06000005)) + 1"
proof -
  have d: "Interpret_TTTR 0x06000005 = \<lparr> sync = 5, tcspc = 0, channel = 3, special = False \<rparr>"
    by (simp add: decode_defs)
  have c: "drop_bit chan_shift (0x06000005 :: u32) AND chan_mask = 3"
    by (simp add: chan_shift_def chan_mask_def)
  have "TranslateRecord 0x06000005 (reset_trackers MH_camera_init) =
      Inr (reset_trackers MH_camera_init)"
    by (simp add: TranslateRecord_def photon_record_def d reset_fields)
  then have h1: "dispatch_record 0x06000005 (reset_trackers MH_camera_init) =
       Inr ((reset_trackers MH_camera_init) \<lparr> live_rates := [0, 0, 0, 1, 0, 0, 0, 0] \<rparr>)"
    by (simp add: dispatch_record_def c MAX_N_CHANNELS_def reset_fields)
  have h2: "length (live_rates (reset_trackers MH_camera_init)) = unat MAX_N_CHANNELS"
    by (simp add: reset_fields MAX_N_CHANNELS_def)
  have h3: "channel (Interpret_TTTR 0x06000005) < MAX_N_CHANNELS"
    by (simp add: d MAX_N_CHANNELS_def)
  from dispatch_record_rates [OF h1 h2] h1 h2 h3 show ?thesis by blast
qed

section \<open>Faults of the record pipeline\<close>

text \<open>
  C3, evaluated on two batches that start in the state after the reset of the trackers,
  on the camera as constructed (120 x 80 scan points, 2 x 3 beams, 16 bits).

  First batch: a frame start, a line start and a line end with the same sync count 5,
  a line start at sync 6 and a photon of channel 0 at sync 7. The line end sets
  \<open>pixel_dwelltime_ps\<close> to \<open>(63090 - 63090) / 240 = 0\<close>, and \<open>GetPixnumInLine\<close> divides
  the photon's time into the line by it.

  Second batch: a frame start, a line start at sync 1 and a photon of channel 7 at sync 2.
  \<open>5 - channel\<close> is \<open>-2\<close>, the vertical shift is \<open>-160\<close>, and the index of the sample
  to increment is \<open>-160 * 240 = -38400\<close>, below the start of the buffer.
\<close>

theorem record_processing_faults:
  "dispatch_batch [0x86000000, 0x84000005, 0x82000005, 0x84000006, 0x00000007]
     (reset_trackers MH_camera_init) = Inl DivisionByZero
   \<and> dispatch_batch [0x86000000, 0x84000001, 0x0E000002]
     (reset_trackers MH_camera_init) = Inl OutOfBounds"
  by (simp add: pipeline_defs decode_defs reset_fields init_fields)

section \<open>Pixel number in a line\<close>

text \<open>
  C4, evaluated on the camera as constructed, where a scan line has 120 points, the
  image is 240 wide and a pixel lasts \<open>10 ^ 8\<close> ps. After a frame start, a line start
  at sync 1 and two overflow markers, a photon of channel 5 at sync 1 is
  \<open>2046 * 1024 * 12618\<close> ps into the line, which is 264 pixel times.
  \<open>GetPixnumInLine\<close> returns \<open>264 / 2 = 132\<close>: the value is beyond the last point 119 of
  the scan line and is not clamped, because the bound of the source is the image width
  \<open>cameraCCDXSize\<close>. The photon is counted in column 132 of row 0, outside the 120
  columns of its beam.
\<close>

theorem GetPixnumInLine_beyond_scan_line:
  "n_scanPixels_X MH_camera_init - 1 = 119
   \<and> dispatch_batch [0x86000000, 0x84000001, 0xFE0003FF, 0xFE0003FF]
        (reset_trackers MH_camera_init) = Inr long_line_state
   \<and> GetPixnumInLine long_line_state (timestamp_ps long_line_state 0x0A000001)
        (last_line_start long_line_state) = Inr 132
   \<and> TranslateRecord 0x0A000001 long_line_state =
        Inr (long_line_state \<lparr> img := (img long_line_state)
               \<lparr> pixels := (replicate 115200 0)[264 := 1, 265 := 0] \<rparr> \<rparr>)"
  by (simp add: pipeline_defs decode_defs reset_fields init_fields long_line_state_def
      read16_def write16_def)

section \<open>Frame and line state\<close>

lemma dispatch_batch_append:
  "dispatch_batch (xs @ ys) s =
     (case dispatch_batch xs s of Inl e \<Rightarrow> Inl e | Inr u \<Rightarrow> dispatch_batch ys u)"
  by (induction xs arbitrary: s) (simp_all split: sum.split)





























section \<open>Photons while the frame is not active\<close>

lemma timestamp_ps_cong:
  "overflow_counter t = overflow_counter s \<Longrightarrow>
   MeasDesc_GlobalResolution t = MeasDesc_GlobalResolution s \<Longrightarrow>
   timestamp_ps t v = timestamp_ps s v"
  by (simp add: timestamp_ps_def overflowtime_def)

lemma line_start_active_step:
  assumes "line_start v" and "frame_active s" and "current_line s + 1 \<le> cameraCCDYSize s"
  shows "dispatch_record v s =
     Inr (s\<lparr> last_line_start := timestamp_ps s v, current_line := current_line s + 1,
              live_rates := (live_rates s)[2 := live_rates s ! 2 + 1] \<rparr>)"
  using assms
  by (simp add: line_start_def dispatch_record_def dispatch_chan TranslateRecord_def
      special_record_def MAX_N_CHANNELS_def Let_def)

lemma line_starts_active:
  assumes "line_start v" and "frame_active s"
    and "current_line s + 1 + int n \<le> cameraCCDYSize s" and "2 < length (live_rates s)"
  shows "dispatch_batch (replicate (Suc n) v) s =
     Inr (s\<lparr> last_line_start := timestamp_ps s v,
              current_line := current_line s + 1 + int n,
              live_rates := (live_rates s)[2 := live_rates s ! 2 + 1 + of_nat n] \<rparr>)"
  using assms(2-)
proof (induction n arbitrary: s)
  case 0
  then show ?case by (simp add: line_start_active_step [OF assms(1)])
next
  case (Suc n)
  let ?s1 = "s\<lparr> last_line_start := timestamp_ps s v, current_line := current_line s + 1,
              live_rates := (live_rates s)[2 := live_rates s ! 2 + 1] \<rparr>"
  have 1: "dispatch_record v s = Inr ?s1"
    using assms(1) Suc.prems(1) by (rule line_start_active_step) (use Suc.prems(2) in simp)
  have a: "frame_active ?s1" using Suc.prems(1) by simp
  have b: "current_line ?s1 + 1 + int n \<le> cameraCCDYSize ?s1" using Suc.prems(2) by simp
  have c: "2 < length (live_rates ?s1)" using Suc.prems(3) by simp
  have t: "timestamp_ps ?s1 v = timestamp_ps s v" by (rule timestamp_ps_cong) simp_all
  have "dispatch_batch (replicate (Suc (Suc n)) v) s = dispatch_batch (replicate (Suc n) v) ?s1"
    by (simp only: replicate_Suc [of "Suc n"] dispatch_batch.simps 1 sum.case)
  also note Suc.IH [OF a b c]
  finally show ?case using Suc.prems(3) by (simp add: t add.assoc)
qed


lemma late_state_reached:
  "dispatch_batch (0x86000000 # replicate 242 0x84000001) (reset_trackers MH_camera_init)
     = Inr late_state"
proof -
  let ?s0 = "reset_trackers MH_camera_init"
  let ?s1 = "?s0\<lparr> current_line := - 1, frame_active := True, n_frame_tracker := 1,
              live_rates := [0, 0, 0, 1, 0, 0, 0, 0] \<rparr>"
  let ?s2 = "?s1\<lparr> last_line_start := 12618, current_line := 240,
              live_rates := [0, 0, 241, 1, 0, 0, 0, 0] \<rparr>"
  have ls: "line_start 0x84000001" by (simp add: line_start_def decode_defs)
  have 1: "dispatch_record 0x86000000 ?s0 = Inr ?s1"
    by (simp add: pipeline_defs decode_defs reset_fields init_fields)
  have t: "timestamp_ps ?s1 0x84000001 = 12618"
    by (simp add: timestamp_ps_def overflowtime_def decode_defs reset_fields init_fields)
  have "dispatch_batch (replicate (Suc 240) 0x84000001) ?s1 =
     Inr (?s1\<lparr> last_line_start := timestamp_ps ?s1 0x84000001,
              current_line := current_line ?s1 + 1 + int 240,
              live_rates := (live_rates ?s1)[2 := live_rates ?s1 ! 2 + 1 + of_nat 240] \<rparr>)"
    using ls by (rule line_starts_active) (simp_all add: reset_fields init_fields)
  then have 2: "dispatch_batch (replicate (Suc 240) 0x84000001) ?s1 = Inr ?s2"
    by (simp add: t)
  have 3: "dispatch_record 0x84000001 ?s2 = Inr late_state"
    by (simp add: pipeline_defs decode_defs reset_fields init_fields late_state_def)
  have "(242 :: nat) = Suc (Suc 240)" by simp
  then have "replicate 242 (0x84000001 :: u32) = replicate (Suc (Suc 240)) 0x84000001"
    by (simp only:)
  also have "\<dots> = replicate (Suc 240) 0x84000001 @ [0x84000001]"
    by (simp only: replicate_Suc [of "Suc 240"] replicate_append_same)
  finally have "replicate 242 (0x84000001 :: u32) = replicate (Suc 240) 0x84000001 @ [0x84000001]" .
  then show ?thesis
    by (simp only: dispatch_batch.simps 1 sum.case dispatch_batch_append 2 3)
qed

text \<open>
  C6, evaluated in a state with \<open>frame_active = false\<close> that the camera as constructed
  reaches after a frame start and 242 line starts. A photon of channel 7 is not dropped:
  it increments the sample \<open>81 * 240 = 19440\<close>, the bytes 38880 and 38881 of the 16-bit
  buffer. A photon of channel 0 is not dropped either: its sample index
  \<open>120 + 401 * 240\<close> lies behind the end of the buffer.
\<close>

theorem photon_counted_while_frame_inactive:
  "dispatch_batch (0x86000000 # replicate 242 0x84000001) (reset_trackers MH_camera_init)
     = Inr late_state
   \<and> frame_active late_state = False
   \<and> special (Interpret_TTTR 0x0E000002) = False
   \<and> pixels (img late_state) = replicate 115200 0
   \<and> TranslateRecord 0x0E000002 late_state =
       Inr (late_state\<lparr> img := (img late_state)
              \<lparr> pixels := (replicate 115200 0)[38880 := 1, 38881 := 0] \<rparr> \<rparr>)
   \<and> special (Interpret_TTTR 0x00000002) = False
   \<and> TranslateRecord 0x00000002 late_state = Inl OutOfBounds"
proof -
  have "TranslateRecord 0x0E000002 late_state =
       Inr (late_state\<lparr> img := (img late_state)
              \<lparr> pixels := (replicate 115200 0)[38880 := 1, 38881 := 0] \<rparr> \<rparr>)"
    by (simp add: pipeline_defs decode_defs reset_fields init_fields late_state_def
        read16_def write16_def)
  moreover have "TranslateRecord 0x00000002 late_state = Inl OutOfBounds"
    by (simp add: pipeline_defs decode_defs reset_fields init_fields late_state_def)
  moreover have "frame_active late_state = False"
    "pixels (img late_state) = replicate 115200 0"
    by (simp_all add: late_state_def reset_fields init_fields)
  moreover have "special (Interpret_TTTR 0x0E000002) = False"
    "special (Interpret_TTTR 0x00000002) = False"
    by (simp_all add: decode_defs)
  ultimately show ?thesis using late_state_reached by blast
qed

end
